theory Spec2Isabelle
  imports Complex_Main "HOL-Library.Char_ord" "HOL-Library.List_Lexorder" "HOL-Library.Sublist"
begin

section \<open>JavaScript strings\<close>

text \<open>
  A JavaScript string is a sequence of UTF-16 code units. The model is \<^typ>\<open>string\<close>: its
  characters are the code units \<open>0 .. 255\<close> (Basic Latin and the Latin-1 supplement), on
  which \<open>toLowerCase\<close>, \<open>trim\<close>, \<open>includes\<close>, \<open>===\<close> and the default order of
  \<open>Array.prototype.sort\<close> (code unit by code unit, a proper prefix first) are as below.
  The order on \<^typ>\<open>string\<close> is the lexicographic order of the character codes.
\<close>

definition isUpperCase :: "char \<Rightarrow> bool" where
  "isUpperCase c =
     (let n = (of_char c :: nat)
      in (65 \<le> n \<and> n \<le> 90) \<or> (192 \<le> n \<and> n \<le> 222 \<and> n \<noteq> 215))"

definition lowerChar :: "char \<Rightarrow> char" where
  "lowerChar c = (if isUpperCase c then char_of ((of_char c :: nat) + 32) else c)"

definition toLowerCase :: "string \<Rightarrow> string" where
  "toLowerCase s = map lowerChar s"

definition isWhiteSpace :: "char \<Rightarrow> bool" where
  "isWhiteSpace c = ((of_char c :: nat) \<in> {9, 10, 11, 12, 13, 32, 160})"

definition trim :: "string \<Rightarrow> string" where
  "trim s = rev (dropWhile isWhiteSpace (rev (dropWhile isWhiteSpace s)))"

fun startsWith :: "string \<Rightarrow> string \<Rightarrow> bool" where
  "startsWith s [] = True"
| "startsWith [] (c # t) = False"
| "startsWith (d # s) (c # t) = (d = c \<and> startsWith s t)"

text \<open>\<open>s.includes(t)\<close>: \<open>t\<close> occurs in \<open>s\<close> at some position.\<close>

fun includes_str :: "string \<Rightarrow> string \<Rightarrow> bool" where
  "includes_str [] t = (t = [])"
| "includes_str (c # s) t = (startsWith (c # s) t \<or> includes_str s t)"

section \<open>Employee records\<close>

text \<open>
  Modelled from the spec: the type \<open>Employee\<close> (\<open>../types/Employee\<close>) is imported by
  \<open>EmployeeGrid.tsx\<close> and is not among the sources; the fields and their types are those of
  the data model (section 3 of the spec). The field \<open>id\<close> is named \<open>id_emp\<close> here; an absent
  \<open>manager\<close> is \<^const>\<open>None\<close>. The array \<open>employeeData\<close> (\<open>../data/employeeData\<close>) is not
  among the sources either: every function below takes it as its argument.
\<close>

record Employee =
  id_emp :: int
  firstName :: string
  lastName :: string
  email :: string
  department :: string
  position :: string
  salary :: rat
  hireDate :: string
  age :: int
  location :: string
  performanceRating :: rat
  projectsCompleted :: int
  isActive :: bool
  skills :: "string list"
  manager :: "string option"

datatype error = TypeError

section \<open>The department list (\<open>departments\<close>)\<close>

text \<open>
  \<open>[...new Set(xs)]\<close>: a set keeps its elements in insertion order, and adding an element
  that is already there changes nothing.
\<close>

definition setAdd :: "'a list \<Rightarrow> 'a \<Rightarrow> 'a list" where
  "setAdd acc x = (if x \<in> set acc then acc else acc @ [x])"

definition newSet :: "'a list \<Rightarrow> 'a list" where
  "newSet xs = foldl setAdd [] xs"

definition departments :: "Employee list \<Rightarrow> string list" where
  "departments employeeData =
     (let uniqueDepts = newSet (map department employeeData)
      in ''All'' # sort uniqueDepts)"

section \<open>The filter pipeline (\<open>filteredData\<close>)\<close>

text \<open>The three blocks of \<open>filteredData\<close>, in the order of the source.\<close>

definition departmentStage :: "string \<Rightarrow> Employee list \<Rightarrow> Employee list" where
  "departmentStage departmentFilter data =
     (if departmentFilter \<noteq> ''All''
      then filter (\<lambda>emp. department emp = departmentFilter) data
      else data)"

definition statusStage :: "string \<Rightarrow> Employee list \<Rightarrow> Employee list" where
  "statusStage statusFilter data =
     (if statusFilter \<noteq> ''All''
      then (let wantActive = (statusFilter = ''Active'')
            in filter (\<lambda>emp. isActive emp = wantActive) data)
      else data)"

text \<open>
  The only value of a record that can be \<open>null\<close> is \<open>manager\<close>; calling a method on it
  raises a \<open>TypeError\<close>. \<open>emp.manager && ...\<close> evaluates its right operand only when
  \<open>emp.manager\<close> is truthy (neither absent nor the empty string).
\<close>

definition callToLowerCase :: "string option \<Rightarrow> error + string" where
  "callToLowerCase v = (case v of None \<Rightarrow> Inl TypeError | Some s \<Rightarrow> Inr (toLowerCase s))"

definition truthy :: "string option \<Rightarrow> bool" where
  "truthy v = (case v of None \<Rightarrow> False | Some s \<Rightarrow> s \<noteq> [])"

definition managerMatches :: "string \<Rightarrow> Employee \<Rightarrow> error + bool" where
  "managerMatches searchLower emp =
     (if truthy (manager emp)
      then (case callToLowerCase (manager emp) of
              Inl e \<Rightarrow> Inl e
            | Inr m \<Rightarrow> Inr (includes_str m searchLower))
      else Inr False)"

text \<open>The callback of the search filter: a chain of \<open>||\<close>, evaluated left to right.\<close>

definition searchMatches :: "string \<Rightarrow> Employee \<Rightarrow> error + bool" where
  "searchMatches searchLower emp =
     (if includes_str (toLowerCase (firstName emp)) searchLower then Inr True
      else if includes_str (toLowerCase (lastName emp)) searchLower then Inr True
      else if includes_str (toLowerCase (email emp)) searchLower then Inr True
      else if includes_str (toLowerCase (department emp)) searchLower then Inr True
      else if includes_str (toLowerCase (position emp)) searchLower then Inr True
      else if includes_str (toLowerCase (location emp)) searchLower then Inr True
      else (case managerMatches searchLower emp of
              Inl e \<Rightarrow> Inl e
            | Inr True \<Rightarrow> Inr True
            | Inr False \<Rightarrow>
                Inr (list_ex (\<lambda>skill. includes_str (toLowerCase skill) searchLower)
                       (skills emp))))"

text \<open>\<open>data.filter(p)\<close> with a callback that may raise: the first error ends the call.\<close>

fun filterE :: "('a \<Rightarrow> error + bool) \<Rightarrow> 'a list \<Rightarrow> error + 'a list" where
  "filterE p [] = Inr []"
| "filterE p (x # xs) =
     (case p x of
        Inl e \<Rightarrow> Inl e
      | Inr b \<Rightarrow>
          (case filterE p xs of
             Inl e \<Rightarrow> Inl e
           | Inr ys \<Rightarrow> Inr (if b then x # ys else ys)))"

definition searchStage :: "string \<Rightarrow> Employee list \<Rightarrow> error + Employee list" where
  "searchStage searchText data =
     (if trim searchText \<noteq> []
      then (let searchLower = toLowerCase searchText
            in filterE (searchMatches searchLower) data)
      else Inr data)"

definition filteredData ::
  "Employee list \<Rightarrow> string \<Rightarrow> string \<Rightarrow> string \<Rightarrow> error + Employee list" where
  "filteredData employeeData searchText departmentFilter statusFilter =
     searchStage searchText
       (statusStage statusFilter (departmentStage departmentFilter employeeData))"

section \<open>The statements of the specification\<close>

text \<open>
  The condition of the search stage in the words of the specification: one of the text
  fields, the manager when there is one, or one of the skills, lower-cased, contains the
  text \<open>t\<close>.
\<close>

definition spec_matches :: "string \<Rightarrow> Employee \<Rightarrow> bool" where
  "spec_matches t emp =
     (sublist t (toLowerCase (firstName emp)) \<or>
      sublist t (toLowerCase (lastName emp)) \<or>
      sublist t (toLowerCase (email emp)) \<or>
      sublist t (toLowerCase (department emp)) \<or>
      sublist t (toLowerCase (position emp)) \<or>
      sublist t (toLowerCase (location emp)) \<or>
      (case manager emp of None \<Rightarrow> False | Some m \<Rightarrow> sublist t (toLowerCase m)) \<or>
      (\<exists>skill \<in> set (skills emp). sublist t (toLowerCase skill)))"

text \<open>
  The search stage as the specification words it: the text is trimmed, then lower-cased,
  then looked for.
\<close>

definition spec_searchStage :: "string \<Rightarrow> Employee list \<Rightarrow> Employee list" where
  "spec_searchStage searchText data =
     (if trim searchText \<noteq> []
      then filter (spec_matches (toLowerCase (trim searchText))) data
      else data)"

text \<open>
  Modelled from the spec: the two records of the scenarios of section 8. The fields a
  scenario does not give are the empty text and \<open>0\<close>.
\<close>

definition record1 :: Employee where
  "record1 =
     \<lparr>id_emp = 1, firstName = ''Ann'', lastName = [], email = [], department = ''HR'',
      position = [], salary = 0, hireDate = [], age = 0, location = [],
      performanceRating = 0, projectsCompleted = 0, isActive = True, skills = [''Excel''],
      manager = None\<rparr>"

definition record2 :: Employee where
  "record2 =
     \<lparr>id_emp = 2, firstName = ''Bo'', lastName = [], email = [], department = ''Eng'',
      position = [], salary = 0, hireDate = [], age = 0, location = [],
      performanceRating = 0, projectsCompleted = 0, isActive = False, skills = [''Go''],
      manager = Some ''Ann''\<rparr>"

section \<open>Strings\<close>

lemma startsWith_iff: "startsWith s t \<longleftrightarrow> prefix t s"
  by (induction s t rule: startsWith.induct) auto

lemma includes_str_iff: "includes_str s t \<longleftrightarrow> sublist t s"
proof (induction s)
  case Nil
  show ?case by simp
next
  case (Cons c s)
  show ?case
  proof (cases t)
    case Nil
    then show ?thesis by simp
  next
    case (Cons d u)
    then show ?thesis
      using Cons.IH by (simp add: startsWith_iff sublist_Cons_right)
  qed
qed

section \<open>The callbacks of the pipeline never raise\<close>

lemma filterE_pure:
  "(\<And>x. x \<in> set xs \<Longrightarrow> p x = Inr (q x)) \<Longrightarrow> filterE p xs = Inr (filter q xs)"
  by (induction xs) auto

lemma managerMatches_eq:
  "managerMatches t emp =
     Inr (case manager emp of None \<Rightarrow> False | Some m \<Rightarrow> m \<noteq> [] \<and> sublist t (toLowerCase m))"
  by (cases "manager emp")
    (simp_all add: managerMatches_def truthy_def callToLowerCase_def includes_str_iff)

lemma searchMatches_eq: "searchMatches t emp = Inr (spec_matches t emp)"
proof (cases "t = []")
  case True
  then show ?thesis
    by (simp add: searchMatches_def spec_matches_def includes_str_iff)
next
  case False
  have nil: "toLowerCase [] = []" by (simp add: toLowerCase_def)
  have "a \<noteq> [] \<and> sublist t (toLowerCase a) \<longleftrightarrow> sublist t (toLowerCase a)" for a
    using False nil by (cases a) auto
  then show ?thesis
    by (cases "manager emp")
      (auto simp: searchMatches_def spec_matches_def managerMatches_eq includes_str_iff
        list_ex_iff split: bool.splits)
qed

lemma searchStage_eq:
  "searchStage s data =
     Inr (if trim s \<noteq> [] then filter (spec_matches (toLowerCase s)) data else data)"
  by (simp add: searchStage_def filterE_pure searchMatches_eq)

lemma filteredData_filter: "\<exists>P. \<forall>recs. filteredData recs s d t = Inr (filter P recs)"
proof -
  let ?P = "\<lambda>emp. (d \<noteq> ''All'' \<longrightarrow> department emp = d) \<and>
                  (t \<noteq> ''All'' \<longrightarrow> isActive emp = (t = ''Active'')) \<and>
                  (trim s \<noteq> [] \<longrightarrow> spec_matches (toLowerCase s) emp)"
  have "filteredData recs s d t = Inr (filter ?P recs)" for recs
    by (simp add: filteredData_def searchStage_eq statusStage_def departmentStage_def)
  then show ?thesis by blast
qed

section \<open>The department list\<close>

lemma foldl_setAdd_set: "set (foldl setAdd acc xs) = set acc \<union> set xs"
  by (induction xs arbitrary: acc) (auto simp: setAdd_def)

lemma foldl_setAdd_distinct: "distinct acc \<Longrightarrow> distinct (foldl setAdd acc xs)"
  by (induction xs arbitrary: acc) (auto simp: setAdd_def)

lemma set_newSet: "set (newSet xs) = set xs"
  by (simp add: newSet_def foldl_setAdd_set)

lemma distinct_newSet: "distinct (newSet xs)"
  by (simp add: newSet_def foldl_setAdd_distinct)

section \<open>The claims\<close>

text \<open>
  C1, as amended. When \<open>searchText\<close> is not empty after trimming, the search stage
  lower-cases \<open>searchText\<close> as it was entered (the trimmed text only decides whether the
  stage runs; leading and trailing whitespace stays part of the text looked for) and keeps
  exactly the records for which one of \<open>firstName\<close>, \<open>lastName\<close>, \<open>email\<close>,
  \<open>department\<close>, \<open>position\<close>, \<open>location\<close>, \<open>manager\<close> (when there is one) or an element of
  \<open>skills\<close>, lower-cased, contains that text as a contiguous part, at any position.
\<close>

theorem search_stage_untrimmed:
  "trim s \<noteq> [] \<Longrightarrow> searchStage s recs = Inr (filter (spec_matches (toLowerCase s)) recs)"
  by (simp add: searchStage_eq)

theorem search_stage_untrimmed_witness:
  "trim ''eng'' \<noteq> [] \<and>
   searchStage ''eng'' [record1, record2\<lparr>department := ''Engineering''\<rparr>] =
     Inr [record2\<lparr>department := ''Engineering''\<rparr>]"
proof -
  let ?recs = "[record1, record2\<lparr>department := ''Engineering''\<rparr>]"
  have h: "trim ''eng'' \<noteq> []" by code_simp
  have "searchStage ''eng'' ?recs = Inr (filter (spec_matches (toLowerCase ''eng'')) ?recs)"
    by (rule search_stage_untrimmed[OF h])
  moreover have "filter (spec_matches (toLowerCase ''eng'')) ?recs =
      [record2\<lparr>department := ''Engineering''\<rparr>]"
    by code_simp
  ultimately show ?thesis using h by simp
qed

text \<open>
  The claim as the specification words it (the trimmed text is looked for) fails on the
  search text \<open>bo\<close> followed by a space: the code looks for the three characters and finds
  them nowhere in the second scenario record, whose first name is \<open>Bo\<close>.
\<close>

theorem search_stage_trimmed_counterexample:
  "trim ''bo '' \<noteq> [] \<and>
   searchStage ''bo '' [record2] \<noteq> Inr (spec_searchStage ''bo '' [record2])"
  by code_simp

text \<open>
  C2. With the default state (\<open>searchText\<close> empty, both selectors \<open>All\<close>) the pipeline
  returns the full sequence of records, unchanged.
\<close>

theorem default_state_identity: "filteredData recs [] ''All'' ''All'' = Inr recs"
  by (simp add: filteredData_def searchStage_def statusStage_def departmentStage_def trim_def)

theorem default_state_identity_witness:
  "filteredData [record1, record2] [] ''All'' ''All'' = Inr [record1, record2]"
  by (rule default_state_identity)

text \<open>
  C3. For a department filter other than \<open>All\<close>, the department stage keeps exactly the
  records whose \<open>department\<close> is equal to the filter value (equality of strings, so case
  matters and a longer department name does not match); a record of the department
  \<open>Engineering Support\<close> is not kept for the filter value \<open>Engineering\<close>.
\<close>

theorem department_stage_exact:
  "d \<noteq> ''All'' \<Longrightarrow>
     departmentStage d recs = filter (\<lambda>emp. department emp = d) recs \<and>
     filteredData recs [] d ''All'' = Inr (filter (\<lambda>emp. department emp = d) recs) \<and>
     (\<forall>emp. department emp = ''Engineering Support'' \<longrightarrow>
        emp \<notin> set (departmentStage ''Engineering'' recs))"
  by (simp add: filteredData_def searchStage_def statusStage_def departmentStage_def trim_def)

theorem department_stage_exact_witness:
  "''Engineering'' \<noteq> ''All'' \<and>
   departmentStage ''Engineering''
     [record1\<lparr>department := ''Engineering Support''\<rparr>,
      record2\<lparr>department := ''Engineering''\<rparr>,
      record1\<lparr>department := ''engineering''\<rparr>] =
   [record2\<lparr>department := ''Engineering''\<rparr>]"
proof -
  have h: "''Engineering'' \<noteq> ''All''" by simp
  show ?thesis
    using department_stage_exact[OF h,
        of "[record1\<lparr>department := ''Engineering Support''\<rparr>,
             record2\<lparr>department := ''Engineering''\<rparr>,
             record1\<lparr>department := ''engineering''\<rparr>]"]
    by (simp add: record1_def record2_def)
qed

text \<open>
  C4. For a status filter other than \<open>All\<close>, the status stage keeps exactly the records
  whose \<open>isActive\<close> is equal to \<open>wantActive = (statusFilter == "Active")\<close>; on the two
  records of the scenario, the filter with an empty search text, the department \<open>All\<close> and
  the status \<open>Active\<close> returns the record with id 1 alone.
\<close>

theorem status_stage_active:
  "(t \<noteq> ''All'' \<longrightarrow>
      statusStage t recs = filter (\<lambda>emp. isActive emp = (t = ''Active'')) recs) \<and>
   filteredData [record1, record2] [] ''All'' ''Active'' = Inr [record1] \<and>
   id_emp record1 = 1"
  by (simp add: filteredData_def searchStage_def statusStage_def departmentStage_def trim_def
      record1_def record2_def)

theorem status_stage_active_witness:
  "''Inactive'' \<noteq> ''All'' \<and> statusStage ''Inactive'' [record1, record2] = [record2]"
  using status_stage_active[of "''Inactive''" "[record1, record2]"]
  by (simp add: record1_def record2_def)

text \<open>
  C5. The pipeline is a function of its four arguments, it always returns, and what it
  returns is the input sequence with some records left out: the records that survive the
  three stages stand in the order they have in the input.
\<close>

theorem filter_order_preserving:
  "\<exists>ys. filteredData recs s d t = Inr ys \<and> subseq ys recs \<and>
        ys = filter (\<lambda>emp. emp \<in> set ys) recs"
proof -
  obtain P where P: "\<And>xs. filteredData xs s d t = Inr (filter P xs)"
    using filteredData_filter by blast
  have "filter P recs = filter (\<lambda>emp. emp \<in> set (filter P recs)) recs"
    by (rule filter_cong) auto
  with P[of recs] show ?thesis by auto
qed

theorem filter_order_preserving_witness:
  "filteredData [record2, record1, record2] [] ''Eng'' ''Inactive'' = Inr [record2, record2] \<and>
   (\<exists>ys. filteredData [record2, record1, record2] [] ''Eng'' ''Inactive'' = Inr ys \<and>
         subseq ys [record2, record1, record2] \<and>
         ys = filter (\<lambda>emp. emp \<in> set ys) [record2, record1, record2])"
proof -
  have "filteredData [record2, record1, record2] [] ''Eng'' ''Inactive'' =
      Inr [record2, record2]"
    by code_simp
  then show ?thesis
    using filter_order_preserving[of "[record2, record1, record2]" "[]" "''Eng''"
        "''Inactive''"]
    by blast
qed

text \<open>
  C6. The filter is idempotent: filtering the result of the filter again, with the same
  search text, department and status, returns that result.
\<close>

theorem filter_idempotent:
  "\<exists>ys. filteredData r s d t = Inr ys \<and> filteredData ys s d t = Inr ys"
proof -
  obtain P where P: "\<And>xs. filteredData xs s d t = Inr (filter P xs)"
    using filteredData_filter by blast
  have "filteredData (filter P r) s d t = Inr (filter P r)"
    by (simp add: P)
  with P[of r] show ?thesis by blast
qed

theorem filter_idempotent_witness:
  "filteredData [record1, record2] ''bo'' ''All'' ''All'' = Inr [record2] \<and>
   filteredData [record2] ''bo'' ''All'' ''All'' = Inr [record2]"
proof -
  have a: "filteredData [record1, record2] ''bo'' ''All'' ''All'' = Inr [record2]"
    by code_simp
  obtain ys where "filteredData [record1, record2] ''bo'' ''All'' ''All'' = Inr ys"
    and "filteredData ys ''bo'' ''All'' ''All'' = Inr ys"
    using filter_idempotent[of "[record1, record2]" "''bo''" "''All''" "''All''"] by blast
  with a show ?thesis by simp
qed

text \<open>
  C7. The department list is the sentinel \<open>All\<close> followed by the distinct departments of
  the records, each once, in ascending order of the strings (code unit by code unit, so
  case matters).
\<close>

theorem departments_sorted_distinct:
  "\<exists>ds. departments recs = ''All'' # ds \<and> sorted ds \<and> distinct ds \<and>
        set ds = department ` set recs \<and> ds = sorted_list_of_set (department ` set recs)"
proof -
  let ?ds = "sort (newSet (map department recs))"
  have "departments recs = ''All'' # ?ds" by (simp add: departments_def)
  moreover have "sorted ?ds" by simp
  moreover have d: "distinct ?ds" by (simp add: distinct_newSet)
  moreover have s: "set ?ds = department ` set recs" by (simp add: set_newSet)
  moreover have "?ds = sorted_list_of_set (department ` set recs)"
    using d s by (intro sorted_distinct_set_unique) simp_all
  ultimately show ?thesis by blast
qed

theorem departments_sorted_distinct_witness:
  "(\<exists>ds. departments [record2, record1, record2] = ''All'' # ds \<and> sorted ds \<and> distinct ds \<and>
        set ds = department ` set [record2, record1, record2] \<and>
        ds = sorted_list_of_set (department ` set [record2, record1, record2])) \<and>
   departments [record2, record1, record2] = [''All'', ''Eng'', ''HR'']"
proof -
  have "departments [record2, record1, record2] = [''All'', ''Eng'', ''HR'']" by code_simp
  with departments_sorted_distinct[of "[record2, record1, record2]"] show ?thesis by blast
qed

text \<open>
  C8. The pipeline is total: on every sequence of records and every search text,
  department and status it returns a sequence and raises no error. A record without a
  manager raises no error in the search, does not match through the manager field, and is
  kept or dropped by the search on its other fields alone.
\<close>

theorem filter_total_manager_absent:
  "(\<exists>ys. filteredData recs s d t = Inr ys) \<and>
   (manager emp = None \<longrightarrow>
      managerMatches u emp = Inr False \<and>
      searchMatches u emp =
        Inr (sublist u (toLowerCase (firstName emp)) \<or>
             sublist u (toLowerCase (lastName emp)) \<or>
             sublist u (toLowerCase (email emp)) \<or>
             sublist u (toLowerCase (department emp)) \<or>
             sublist u (toLowerCase (position emp)) \<or>
             sublist u (toLowerCase (location emp)) \<or>
             (\<exists>skill \<in> set (skills emp). sublist u (toLowerCase skill))))"
proof -
  have "\<exists>ys. filteredData recs s d t = Inr ys"
    using filteredData_filter[of s d t] by blast
  moreover have "manager emp = None \<longrightarrow> managerMatches u emp = Inr False"
    by (simp add: managerMatches_eq)
  moreover have "manager emp = None \<longrightarrow> searchMatches u emp =
        Inr (sublist u (toLowerCase (firstName emp)) \<or>
             sublist u (toLowerCase (lastName emp)) \<or>
             sublist u (toLowerCase (email emp)) \<or>
             sublist u (toLowerCase (department emp)) \<or>
             sublist u (toLowerCase (position emp)) \<or>
             sublist u (toLowerCase (location emp)) \<or>
             (\<exists>skill \<in> set (skills emp). sublist u (toLowerCase skill)))"
    by (simp add: searchMatches_eq spec_matches_def)
  ultimately show ?thesis by blast
qed

theorem filter_total_manager_absent_witness:
  "manager record1 = None \<and>
   managerMatches ''ann'' record1 = Inr False \<and>
   searchMatches ''hr'' record1 = Inr True \<and>
   searchMatches ''bo'' record1 = Inr False \<and>
   (\<exists>ys. filteredData [record1, record2] ''ann'' ''All'' ''All'' = Inr ys)"
proof -
  have m: "manager record1 = None" by (simp add: record1_def)
  have a: "managerMatches ''ann'' record1 = Inr False"
    using filter_total_manager_absent[of _ _ _ _ record1 "''ann''"] m by blast
  have b: "\<exists>ys. filteredData [record1, record2] ''ann'' ''All'' ''All'' = Inr ys"
    using filter_total_manager_absent[of "[record1, record2]" "''ann''" "''All''" "''All''"]
    by blast
  have c: "searchMatches ''hr'' record1 = Inr True" by code_simp
  have d: "searchMatches ''bo'' record1 = Inr False" by code_simp
  from m a b c d show ?thesis by blast
qed

text \<open>
  C10. A status filter that is neither \<open>All\<close> nor \<open>Active\<close> (\<open>active\<close>, \<open>inactive\<close>, any
  other text) keeps exactly the records that are not active: it does what \<open>Inactive\<close>
  does.
\<close>

theorem status_unrecognized_inactive:
  "t \<noteq> ''All'' \<Longrightarrow> t \<noteq> ''Active'' \<Longrightarrow>
     statusStage t recs = filter (\<lambda>emp. \<not> isActive emp) recs \<and>
     statusStage t recs = statusStage ''Inactive'' recs"
  by (simp add: statusStage_def)

theorem status_unrecognized_inactive_witness:
  "''active'' \<noteq> ''All'' \<and> ''active'' \<noteq> ''Active'' \<and>
   statusStage ''active'' [record1, record2] = [record2]"
proof -
  have a: "''active'' \<noteq> ''All''" and b: "''active'' \<noteq> ''Active''" by simp_all
  show ?thesis
    using status_unrecognized_inactive[OF a b, of "[record1, record2]"]
    by (simp add: record1_def record2_def)
qed

end
